theory Spec2Isabelle
  imports Complex_Main
begin

section \<open>Python values\<close>

text \<open>
  The values that travel between \<^verbatim>\<open>fflogs_parser.py\<close> and its Node.js worker are
  JSON documents. \<open>JNull\<close> is Python's \<^verbatim>\<open>None\<close>, \<open>JObj\<close> a \<^verbatim>\<open>dict\<close> in insertion
  order, \<open>JArr\<close> a \<^verbatim>\<open>list\<close>. A Python \<^verbatim>\<open>str\<close> is a \<open>string\<close> (code points below 256).
  JSON numbers are the integers: the commands the script builds hold no other number, and the
  collection loop looks at a payload only through its truth value.
\<close>

datatype json =
    JNull
  | JBool bool
  | JInt int
  | JStr string
  | JArr "json list"
  | JObj "(string \<times> json) list"

text \<open>The exceptions the script can meet.\<close>

datatype py_error = AttributeError | BrokenPipeError | JSONDecodeError

text \<open>Python's truth value of an object, as \<^verbatim>\<open>if fights_data and master_data\<close> tests it.\<close>

fun truthy :: "json \<Rightarrow> bool" where
  "truthy JNull = False"
| "truthy (JBool b) = b"
| "truthy (JInt i) = (i \<noteq> 0)"
| "truthy (JStr s) = (s \<noteq> [])"
| "truthy (JArr xs) = (xs \<noteq> [])"
| "truthy (JObj kvs) = (kvs \<noteq> [])"

text \<open>
  \<^verbatim>\<open>msg.get(key, default)\<close>: only a \<^verbatim>\<open>dict\<close> has the method; on every other value of
  \<^verbatim>\<open>json.loads\<close> (\<^verbatim>\<open>None\<close>, a number, a string, a list) the attribute lookup raises.
\<close>

fun dict_get :: "json \<Rightarrow> string \<Rightarrow> json \<Rightarrow> py_error + json" where
  "dict_get (JObj kvs) k d = Inr (case map_of kvs k of None \<Rightarrow> d | Some v \<Rightarrow> v)"
| "dict_get JNull k d = Inl AttributeError"
| "dict_get (JBool b) k d = Inl AttributeError"
| "dict_get (JInt i) k d = Inl AttributeError"
| "dict_get (JStr s) k d = Inl AttributeError"
| "dict_get (JArr xs) k d = Inl AttributeError"

section \<open>Strings\<close>

definition startswith :: "string \<Rightarrow> string \<Rightarrow> bool" where
  "startswith s p = (take (length p) s = p)"

text \<open>\<^verbatim>\<open>str.isspace\<close> on the code points below 256.\<close>

definition py_isspace :: "char \<Rightarrow> bool" where
  "py_isspace c = (c \<in> set [CHR 0x09, CHR 0x0A, CHR 0x0B, CHR 0x0C, CHR 0x0D, CHR 0x1C,
                             CHR 0x1D, CHR 0x1E, CHR 0x1F, CHR 0x20, CHR 0x85, CHR 0xA0])"

definition strip :: "string \<Rightarrow> string" where
  "strip s = rev (dropWhile py_isspace (rev (dropWhile py_isspace s)))"

text \<open>\<^verbatim>\<open>l.rstrip('\n\r')\<close>.\<close>

definition rstrip_newlines :: "string \<Rightarrow> string" where
  "rstrip_newlines l = rev (dropWhile (\<lambda>c. c = CHR 0x0A \<or> c = CHR 0x0D) (rev l))"

section \<open>\<^verbatim>\<open>json.dumps\<close> with its default arguments\<close>

definition hex_digit :: "nat \<Rightarrow> char" where
  "hex_digit n = ''0123456789abcdef'' ! n"

definition dec_digit :: "nat \<Rightarrow> char" where
  "dec_digit n = ''0123456789'' ! n"

text \<open>\<^verbatim>\<open>ensure_ascii=True\<close>: everything outside the printable ASCII range is escaped.\<close>

definition escape_char :: "char \<Rightarrow> string" where
  "escape_char c =
     (if c = CHR 0x22 then [CHR 0x5C, CHR 0x22]
      else if c = CHR 0x5C then [CHR 0x5C, CHR 0x5C]
      else if c = CHR 0x0A then [CHR 0x5C, CHR ''n'']
      else if c = CHR 0x0D then [CHR 0x5C, CHR ''r'']
      else if c = CHR 0x09 then [CHR 0x5C, CHR ''t'']
      else if c = CHR 0x08 then [CHR 0x5C, CHR ''b'']
      else if c = CHR 0x0C then [CHR 0x5C, CHR ''f'']
      else if 32 \<le> (of_char c :: nat) \<and> (of_char c :: nat) \<le> 126 then [c]
      else [CHR 0x5C, CHR ''u'', CHR ''0'', CHR ''0'',
            hex_digit ((of_char c :: nat) div 16), hex_digit ((of_char c :: nat) mod 16)])"

definition encode_str :: "string \<Rightarrow> string" where
  "encode_str s = [CHR 0x22] @ concat (map escape_char s) @ [CHR 0x22]"

fun digits :: "nat \<Rightarrow> string" where
  "digits n = (if n < 10 then [dec_digit n] else digits (n div 10) @ [dec_digit (n mod 10)])"

declare digits.simps [simp del]

definition str_int :: "int \<Rightarrow> string" where
  "str_int i = (if i < 0 then ''-'' @ digits (nat (- i)) else digits (nat i))"

fun join :: "string \<Rightarrow> string list \<Rightarrow> string" where
  "join sep [] = []"
| "join sep [x] = x"
| "join sep (x # y # ys) = x @ sep @ join sep (y # ys)"

fun dumps :: "json \<Rightarrow> string" where
  "dumps JNull = ''null''"
| "dumps (JBool b) = (if b then ''true'' else ''false'')"
| "dumps (JInt i) = str_int i"
| "dumps (JStr s) = encode_str s"
| "dumps (JArr xs) = ''['' @ join '', '' (map dumps xs) @ '']''"
| "dumps (JObj kvs) =
     ''{'' @ join '', '' (map (\<lambda>(k, v). encode_str k @ '': '' @ dumps v) kvs) @ ''}''"

section \<open>Commands and their encoding\<close>

text \<open>
  Every command \<^verbatim>\<open>run_parser\<close> writes is a \<^verbatim>\<open>dict\<close> literal that starts with the keys
  \<^verbatim>\<open>"message"\<close> and \<^verbatim>\<open>"id"\<close> and goes on with the fields of its kind; it is written as
  \<^verbatim>\<open>json.dumps(...) + "\n"\<close>.
\<close>

record command =
  kind :: string
  corr_id :: int
  payload :: "(string \<times> json) list"

definition command_json :: "command \<Rightarrow> json" where
  "command_json c = JObj ((''message'', JStr (kind c)) # (''id'', JInt (corr_id c)) # payload c)"

definition encode :: "command \<Rightarrow> string" where
  "encode c = dumps (command_json c) @ [CHR 0x0A]"

definition set_report_code :: "string \<Rightarrow> command" where
  "set_report_code report_code =
     \<lparr>kind = ''set-report-code'', corr_id = 0, payload = [(''reportCode'', JStr report_code)]\<rparr>"

text \<open>\<^verbatim>\<open>region_map.get(int(region), "NA")\<close>; the region code is the integer \<^verbatim>\<open>main\<close> passes.\<close>

definition region_map :: "(int \<times> string) list" where
  "region_map = [(1, ''NA''), (2, ''EU''), (3, ''JP''), (4, ''CN''), (5, ''KR'')]"

definition region_str :: "int \<Rightarrow> string" where
  "region_str region = (case map_of region_map region of None \<Rightarrow> ''NA'' | Some s \<Rightarrow> s)"

definition parse_lines :: "string list \<Rightarrow> int \<Rightarrow> command" where
  "parse_lines lines region =
     \<lparr>kind = ''parse-lines'', corr_id = 1,
      payload = [(''lines'', JArr (map (\<lambda>l. JStr (rstrip_newlines l)) lines)),
                (''isLive'', JBool False),
                (''region'', JStr (region_str region)),
                (''selectedFights'', JArr [])]\<rparr>"

definition collect_fights :: command where
  "collect_fights =
     \<lparr>kind = ''collect-fights'', corr_id = 2,
      payload = [(''isLive'', JBool False), (''forReport'', JBool False)]\<rparr>"

definition collect_master_info :: "string \<Rightarrow> command" where
  "collect_master_info report_code =
     \<lparr>kind = ''collect-master-info'', corr_id = 3, payload = [(''reportCode'', JStr report_code)]\<rparr>"

section \<open>The drain thread\<close>

text \<open>
  \<^verbatim>\<open>read_thread\<close> reads the worker's output line by line. A line that starts with the
  sentinel \<^verbatim>\<open>__IPC__:\<close> is cut after the sentinel, stripped and handed to \<^verbatim>\<open>json.loads\<close>;
  the value is put on the queue. \<^verbatim>\<open>json.loads\<close> is the library's: the model takes it as the
  parameter \<open>loads\<close>, which may raise. The bare \<^verbatim>\<open>except: pass\<close> around it is \<open>except_pass\<close>.
\<close>

definition ipc_payload :: "string \<Rightarrow> string option" where
  "ipc_payload line = (if startswith line ''__IPC__:'' then Some (strip (drop 8 line)) else None)"

definition except_pass :: "py_error + 'a \<Rightarrow> 'a \<Rightarrow> py_error + 'a" where
  "except_pass body unchanged = (case body of Inl e \<Rightarrow> Inr unchanged | Inr x \<Rightarrow> Inr x)"

definition read_line :: "(string \<Rightarrow> py_error + json) \<Rightarrow> string \<Rightarrow> json list \<Rightarrow> py_error + json list" where
  "read_line loads line q =
     (case ipc_payload line of
        None \<Rightarrow> Inr q
      | Some text \<Rightarrow>
          except_pass (case loads text of Inl e \<Rightarrow> Inl e | Inr data \<Rightarrow> Inr (q @ [data])) q)"

text \<open>
  The stream is the list of the lines \<^verbatim>\<open>readline\<close> returns; the empty string, or the end of
  the list, is the end of the stream.
\<close>

fun read_thread :: "(string \<Rightarrow> py_error + json) \<Rightarrow> string list \<Rightarrow> json list \<Rightarrow> py_error + json list" where
  "read_thread loads [] q = Inr q"
| "read_thread loads (line # rest) q =
     (if line = [] then Inr q
      else case read_line loads line q of
             Inl e \<Rightarrow> Inl e
           | Inr q' \<Rightarrow> read_thread loads rest q')"

section \<open>The collection loop\<close>

record collection =
  fights_data :: json
  master_data :: json

text \<open>The body of the \<^verbatim>\<open>try\<close> block for one message taken from the queue.\<close>

definition handle_msg :: "json \<Rightarrow> collection \<Rightarrow> py_error + collection" where
  "handle_msg msg st =
     (case dict_get msg ''channel'' (JStr []) of
        Inl e \<Rightarrow> Inl e
      | Inr channel \<Rightarrow>
          (case dict_get msg ''data'' (JObj []) of
             Inl e \<Rightarrow> Inl e
           | Inr data \<Rightarrow>
               Inr (if channel = JStr ''ipc-collect-fights'' then st\<lparr>fights_data := data\<rparr>
                    else if channel = JStr ''ipc-collect-master-info'' then st\<lparr>master_data := data\<rparr>
                    else st)))"

text \<open>
  One element of the observation trace is one pass through the loop head: the value
  \<^verbatim>\<open>time.time()\<close> returns in the loop condition and what \<^verbatim>\<open>ipc_queue.get(timeout=0.1)\<close> then
  does (\<open>None\<close>: it raises \<^verbatim>\<open>queue.Empty\<close>). The loop leaves by \<^verbatim>\<open>break\<close>, by its condition,
  or by an exception of the body; the last argument counts the passes made. A trace that ends
  while the loop still polls says nothing about the rest of the run: \<open>Polling\<close>.
\<close>

type_synonym tick = "real \<times> json option"

datatype loop_exit = Break | Deadline

datatype loop_result = Exited loop_exit collection nat | Failed py_error nat | Polling

fun collect_loop :: "real \<Rightarrow> tick list \<Rightarrow> collection \<Rightarrow> nat \<Rightarrow> loop_result" where
  "collect_loop timeout [] st n = Polling"
| "collect_loop timeout ((now, polled) # rest) st n =
     (if \<not> now < timeout then Exited Deadline st n
      else case polled of
             None \<Rightarrow> collect_loop timeout rest st (Suc n)
           | Some msg \<Rightarrow>
               (case handle_msg msg st of
                  Inl e \<Rightarrow> Failed e n
                | Inr st' \<Rightarrow>
                    if truthy (fights_data st') \<and> truthy (master_data st')
                    then Exited Break st' (Suc n)
                    else collect_loop timeout rest st' (Suc n)))"

section \<open>\<^verbatim>\<open>run_parser\<close>\<close>

text \<open>
  What the outside decides in one run:
  \<^item> \<open>download_ok\<close>: the value \<^verbatim>\<open>download_parser_if_needed()\<close> returns;
  \<^item> \<open>script_exists\<close>: \<^verbatim>\<open>os.path.exists(OUTPUT_SCRIPT)\<close>;
  \<^item> \<open>log_read\<close>: the lines \<^verbatim>\<open>f.readlines()\<close> returns, or the text of the exception that
    opening or reading the log file raises;
  \<^item> \<open>popen\<close>: \<open>None\<close> when \<^verbatim>\<open>subprocess.Popen\<close> returns the process, the text of its
    exception otherwise;
  \<^item> \<open>broken_pipe_at\<close>: the write to the worker's stdin, counted from 0, that raises
    because the worker has exited, if there is one;
  \<^item> \<open>clock_start\<close>: the value of \<^verbatim>\<open>time.time()\<close> in \<^verbatim>\<open>timeout = time.time() + 10\<close>;
  \<^item> \<open>ticks\<close>: the passes of the collection loop. The drain thread fills the queue; the
    trace holds what the loop finds in it.

  The calls of \<^verbatim>\<open>time.sleep\<close> between the writes change nothing the model looks at and are
  left out. The parameter \<^verbatim>\<open>log_file\<close> only names the file that \<open>log_read\<close> reads, so
  \<open>run_parser\<close> takes the world in its place. The region code is the integer \<^verbatim>\<open>main\<close>
  passes, so \<^verbatim>\<open>int(region)\<close> returns it.
\<close>

record world =
  download_ok :: bool
  script_exists :: bool
  log_read :: "string + string list"
  popen :: "string option"
  broken_pipe_at :: "nat option"
  clock_start :: real
  ticks :: "tick list"

text \<open>
  The worker process as the script sees it: the lines written to its stdin and whether
  \<^verbatim>\<open>proc.terminate()\<close> was called. A call of \<^verbatim>\<open>run_parser\<close> ends with the process, if one
  was spawned, and with a returned Outcome or a raised exception; \<open>Pending\<close> stands for a
  trace that ends before the loop does.
\<close>

record process =
  stdin_lines :: "string list"
  terminated :: bool

datatype 'a result = Returned 'a | Raised py_error | Pending

text \<open>\<^verbatim>\<open>proc.stdin.write(json.dumps(cmd) + "\n"); proc.stdin.flush()\<close>, the \<open>i\<close>-th of the run.\<close>

definition stdin_send :: "world \<Rightarrow> nat \<Rightarrow> command \<Rightarrow> process \<Rightarrow> py_error + process" where
  "stdin_send w i cmd p =
     (if broken_pipe_at w = Some i then Inl BrokenPipeError
      else Inr (p\<lparr>stdin_lines := stdin_lines p @ [encode cmd]\<rparr>))"

definition error_outcome :: "string \<Rightarrow> json" where
  "error_outcome msg = JObj [(''error'', JStr msg)]"

text \<open>The two \<^verbatim>\<open>return\<close> statements after the loop.\<close>

definition outcome :: "collection \<Rightarrow> json" where
  "outcome st =
     (if \<not> truthy (fights_data st) \<or> \<not> truthy (master_data st)
      then JObj [(''error'', JStr ''Parser did not return complete data''),
                 (''fights'', fights_data st), (''master'', master_data st)]
      else JObj [(''fights'', fights_data st), (''master'', master_data st)])"

definition run_parser :: "world \<Rightarrow> string \<Rightarrow> int \<Rightarrow> process option \<times> json result" where
  "run_parser w report_code region =
     (if \<not> download_ok w then (None, Returned (error_outcome ''Parser download failed''))
      else if \<not> script_exists w then (None, Returned (error_outcome ''Parser script not found''))
      else case log_read w of
        Inl e \<Rightarrow> (None, Returned (error_outcome (''Failed to read log file: '' @ e)))
      | Inr lines \<Rightarrow>
      (case popen w of
        Some e \<Rightarrow> (None, Returned (error_outcome (''Failed to start Node.js: '' @ e)))
      | None \<Rightarrow>
      (let proc = \<lparr>stdin_lines = [], terminated = False\<rparr> in
       case stdin_send w 0 (set_report_code report_code) proc of
        Inl e \<Rightarrow> (Some proc, Raised e)
      | Inr proc \<Rightarrow>
      (case stdin_send w 1 (parse_lines lines region) proc of
        Inl e \<Rightarrow> (Some proc, Raised e)
      | Inr proc \<Rightarrow>
      (case stdin_send w 2 collect_fights proc of
        Inl e \<Rightarrow> (Some proc, Raised e)
      | Inr proc \<Rightarrow>
      (case stdin_send w 3 (collect_master_info report_code) proc of
        Inl e \<Rightarrow> (Some proc, Raised e)
      | Inr proc \<Rightarrow>
      (case collect_loop (clock_start w + 10) (ticks w)
              \<lparr>fights_data = JNull, master_data = JNull\<rparr> 0 of
        Polling \<Rightarrow> (Some proc, Pending)
      | Failed e n \<Rightarrow> (Some proc, Raised e)
      | Exited how st n \<Rightarrow> (Some (proc\<lparr>terminated := True\<rparr>), Returned (outcome st)))))))))"

section \<open>Reading a run from its trace\<close>

text \<open>
  The notions the statements below use to speak about a run. An event is a message the loop
  took from the queue; its channel and payload are what \<^verbatim>\<open>msg.get\<close> returns for a \<^verbatim>\<open>dict\<close>.
  \<open>latest ch d msgs\<close> is the payload of the last message of \<open>msgs\<close> on channel \<open>ch\<close>, and \<open>d\<close>
  when there is none; \<open>recorded st msgs\<close> holds it for the two channels the loop watches.
\<close>

fun is_dict :: "json \<Rightarrow> bool" where
  "is_dict (JObj kvs) = True"
| "is_dict JNull = False"
| "is_dict (JBool b) = False"
| "is_dict (JInt i) = False"
| "is_dict (JStr s) = False"
| "is_dict (JArr xs) = False"

definition event_channel :: "json \<Rightarrow> json" where
  "event_channel msg = (case dict_get msg ''channel'' (JStr []) of Inl e \<Rightarrow> JNull | Inr c \<Rightarrow> c)"

definition event_data :: "json \<Rightarrow> json" where
  "event_data msg = (case dict_get msg ''data'' (JObj []) of Inl e \<Rightarrow> JNull | Inr d \<Rightarrow> d)"

definition events :: "tick list \<Rightarrow> json list" where
  "events ts = List.map_filter snd ts"

definition payloads_on :: "string \<Rightarrow> json list \<Rightarrow> json list" where
  "payloads_on ch msgs = map event_data (filter (\<lambda>m. event_channel m = JStr ch) msgs)"

definition latest :: "string \<Rightarrow> json \<Rightarrow> json list \<Rightarrow> json" where
  "latest ch d msgs = last (d # payloads_on ch msgs)"

definition recorded :: "collection \<Rightarrow> json list \<Rightarrow> collection" where
  "recorded st msgs =
     \<lparr>fights_data = latest ''ipc-collect-fights'' (fights_data st) msgs,
      master_data = latest ''ipc-collect-master-info'' (master_data st) msgs\<rparr>"

definition satisfied :: "collection \<Rightarrow> bool" where
  "satisfied st = (truthy (fights_data st) \<and> truthy (master_data st))"

definition nothing_yet :: collection where
  "nothing_yet = \<lparr>fights_data = JNull, master_data = JNull\<rparr>"

text \<open>The four lines of a session in which every write succeeds.\<close>

definition all_sent :: "string \<Rightarrow> string list \<Rightarrow> int \<Rightarrow> string list" where
  "all_sent report_code lines region =
     [encode (set_report_code report_code), encode (parse_lines lines region),
      encode collect_fights, encode (collect_master_info report_code)]"

text \<open>An Outcome is the \<^verbatim>\<open>dict\<close> \<^verbatim>\<open>run_parser\<close> returns; it is a success when it has both
  payload keys and no error descriptor.\<close>

definition outcome_get :: "json \<Rightarrow> string \<Rightarrow> json option" where
  "outcome_get out k = (case out of JObj kvs \<Rightarrow> map_of kvs k | _ \<Rightarrow> None)"

definition payload_of :: "json \<Rightarrow> string \<Rightarrow> json" where
  "payload_of out k = (case outcome_get out k of None \<Rightarrow> JNull | Some v \<Rightarrow> v)"

definition is_success :: "json \<Rightarrow> bool" where
  "is_success out =
     (outcome_get out ''fights'' \<noteq> None \<and> outcome_get out ''master'' \<noteq> None
      \<and> outcome_get out ''error'' = None)"

text \<open>
  A run for the examples: the bundle is cached, the log has one line, Node.js starts, the pipe
  holds, the clock reads 0 when the deadline is set, and the queue stays empty until the
  loop reads 11 from the clock.
\<close>

definition quiet_world :: world where
  "quiet_world =
     \<lparr>download_ok = True, script_exists = True, log_read = Inr [''21|2024|'' @ [CHR 0x0A]],
      popen = None, broken_pipe_at = None, clock_start = 0, ticks = [(11, None)]\<rparr>"

definition fights_event :: "json \<Rightarrow> json" where
  "fights_event data = JObj [(''channel'', JStr ''ipc-collect-fights''), (''id'', JInt 2), (''data'', data)]"

definition master_event :: "json \<Rightarrow> json" where
  "master_event data = JObj [(''channel'', JStr ''ipc-collect-master-info''), (''id'', JInt 3), (''data'', data)]"

section \<open>Lemmas about the trace and the loop\<close>

lemma events_simps [simp]:
  "events [] = []"
  "events ((t, None) # ts) = events ts"
  "events ((t, Some m) # ts) = m # events ts"
  by (simp_all add: events_def)

lemma latest_Nil [simp]: "latest ch d [] = d"
  by (simp add: latest_def payloads_on_def)

lemma latest_Cons:
  "latest ch d (m # ms) = latest ch (if event_channel m = JStr ch then event_data m else d) ms"
  by (simp add: latest_def payloads_on_def)

lemma recorded_Nil [simp]: "recorded st [] = st"
  by (simp add: recorded_def)

lemma recorded_Cons: "recorded st (m # ms) = recorded (recorded st [m]) ms"
  by (simp add: recorded_def latest_Cons)

lemma handle_msg_dict: "is_dict m \<Longrightarrow> handle_msg m st = Inr (recorded st [m])"
  by (cases m) (auto simp: handle_msg_def recorded_def latest_Cons event_channel_def event_data_def)

lemma handle_msg_not_dict: "\<not> is_dict m \<Longrightarrow> handle_msg m st = Inl AttributeError"
  by (cases m) (auto simp: handle_msg_def)

lemma collect_loop_empty:
  "t < T \<Longrightarrow> collect_loop T ((t, None) # rest) st n = collect_loop T rest st (Suc n)"
  by simp

lemma collect_loop_event:
  "t < T \<Longrightarrow> is_dict m \<Longrightarrow>
   collect_loop T ((t, Some m) # rest) st n =
     (if satisfied (recorded st [m]) then Exited Break (recorded st [m]) (Suc n)
      else collect_loop T rest (recorded st [m]) (Suc n))"
  by (simp add: handle_msg_dict satisfied_def)

text \<open>
  The loop over a prefix of the trace that lies before the deadline, holds only \<^verbatim>\<open>dict\<close>
  messages and is never satisfied before its end: the loop breaks at its end when the
  payloads are then both truthy, and goes on with the rest of the trace otherwise.
\<close>

lemma collect_loop_prefix:
  assumes "\<forall>tp \<in> set pre. fst tp < T"
    and "\<forall>m \<in> set (events pre). is_dict m"
    and "\<forall>k < length pre. \<not> satisfied (recorded st (events (take k pre)))"
  shows "collect_loop T (pre @ rest) st n =
           (if pre \<noteq> [] \<and> satisfied (recorded st (events pre))
            then Exited Break (recorded st (events pre)) (n + length pre)
            else collect_loop T rest (recorded st (events pre)) (n + length pre))"
  using assms
proof (induction pre arbitrary: st n)
  case Nil
  then show ?case by simp
next
  case (Cons tp pre)
  obtain t p where tp: "tp = (t, p)" by (cases tp)
  from Cons.prems(1) tp have t: "t < T" by simp
  from Cons.prems(3) [rule_format, of 0] have st: "\<not> satisfied st" by simp
  show ?case
  proof (cases p)
    case None
    have later: "\<forall>k < length pre. \<not> satisfied (recorded st (events (take k pre)))"
    proof (intro allI impI)
      fix k assume "k < length pre"
      with Cons.prems(3) [rule_format, of "Suc k"]
      show "\<not> satisfied (recorded st (events (take k pre)))"
        by (simp add: tp None)
    qed
    from Cons.prems(1,2) have "\<forall>tp \<in> set pre. fst tp < T" "\<forall>m \<in> set (events pre). is_dict m"
      by (simp_all add: tp None)
    from Cons.IH [OF this later, of "Suc n"] st show ?thesis
      by (cases "pre = []") (simp_all add: tp None collect_loop_empty [OF t] del: collect_loop.simps)
  next
    case (Some m)
    from Cons.prems(2) have m: "is_dict m" by (simp add: tp Some)
    let ?st = "recorded st [m]"
    show ?thesis
    proof (cases "satisfied ?st")
      case True
      have "pre = []"
      proof (rule ccontr)
        assume "pre \<noteq> []"
        then have "Suc 0 < length (tp # pre)" by (cases pre) simp_all
        from Cons.prems(3) [rule_format, OF this] True show False
          by (simp add: tp Some)
      qed
      with True show ?thesis
        by (simp add: tp Some collect_loop_event [OF t m] del: collect_loop.simps)
    next
      case False
      have later: "\<forall>k < length pre. \<not> satisfied (recorded ?st (events (take k pre)))"
      proof (intro allI impI)
        fix k assume "k < length pre"
        moreover have "recorded st (m # events (take k pre)) = recorded ?st (events (take k pre))"
          by (rule recorded_Cons)
        ultimately show "\<not> satisfied (recorded ?st (events (take k pre)))"
          using Cons.prems(3) [rule_format, of "Suc k"] by (simp add: tp Some)
      qed
      from Cons.prems(1,2) have "\<forall>tp \<in> set pre. fst tp < T" "\<forall>m \<in> set (events pre). is_dict m"
        by (simp_all add: tp Some)
      moreover have "recorded st (m # events pre) = recorded ?st (events pre)"
        by (rule recorded_Cons)
      ultimately show ?thesis
        using Cons.IH [OF _ _ later, of "Suc n"] False
        by (cases "pre = []") (simp_all add: tp Some collect_loop_event [OF t m] del: collect_loop.simps)
    qed
  qed
qed

text \<open>What an exit of the loop says about the trace: the passes made and the payloads held.\<close>

lemma handle_msg_Inr: "handle_msg m st = Inr st' \<Longrightarrow> st' = recorded st [m]"
  using handle_msg_dict [of m st] handle_msg_not_dict [of m st] by (cases "is_dict m") simp_all

lemma collect_loop_exited:
  "collect_loop T ts st n = Exited how st' n' \<Longrightarrow>
     n \<le> n' \<and> n' - n \<le> length ts \<and> st' = recorded st (events (take (n' - n) ts))"
proof (induction ts arbitrary: st n)
  case Nil
  then show ?case by simp
next
  case (Cons tp ts)
  obtain t p where tp: "tp = (t, p)" by (cases tp)
  show ?case
  proof (cases "t < T")
    case False
    with Cons.prems show ?thesis by (simp add: tp)
  next
    case True
    show ?thesis
    proof (cases p)
      case None
      with Cons.prems True have "collect_loop T ts st (Suc n) = Exited how st' n'"
        by (simp add: tp)
      from Cons.IH [OF this] have ih: "Suc n \<le> n'" "n' - Suc n \<le> length ts"
        "st' = recorded st (events (take (n' - Suc n) ts))" by simp_all
      from ih(1) have "n' - n = Suc (n' - Suc n)" by simp
      with ih show ?thesis
        by (simp add: tp None)
    next
      case (Some m)
      show ?thesis
      proof (cases "handle_msg m st")
        case (Inl e)
        with Cons.prems True show ?thesis by (simp add: tp Some)
      next
        case (Inr st1)
        then have st1: "st1 = recorded st [m]" by (rule handle_msg_Inr)
        show ?thesis
        proof (cases "truthy (fights_data st1) \<and> truthy (master_data st1)")
          case True
          with Cons.prems \<open>t < T\<close> Inr st1 show ?thesis by (auto simp add: tp Some)
        next
          case False
          with Cons.prems \<open>t < T\<close> Inr have "collect_loop T ts st1 (Suc n) = Exited how st' n'"
            by (auto simp add: tp Some)
          from Cons.IH [OF this] have "Suc n \<le> n'" "n' - Suc n \<le> length ts"
            "st' = recorded st1 (events (take (n' - Suc n) ts))" by simp_all
          moreover have "recorded st (m # events (take (n' - Suc n) ts))
                           = recorded st1 (events (take (n' - Suc n) ts))"
            unfolding st1 by (rule recorded_Cons)
          moreover from \<open>Suc n \<le> n'\<close> have "n' - n = Suc (n' - Suc n)" by simp
          ultimately show ?thesis
            by (simp add: tp Some)
        qed
      qed
    qed
  qed
qed

section \<open>Lemmas about \<^verbatim>\<open>run_parser\<close>\<close>

text \<open>A run in which the worker starts and the four writes succeed is decided by the loop.\<close>

lemma run_parser_collects:
  assumes "download_ok w" and "script_exists w" and "log_read w = Inr lines" and "popen w = None"
    and "broken_pipe_at w \<notin> {Some 0, Some 1, Some 2, Some 3}"
  shows "run_parser w rc region =
     (case collect_loop (clock_start w + 10) (ticks w) nothing_yet 0 of
        Polling \<Rightarrow> (Some \<lparr>stdin_lines = all_sent rc lines region, terminated = False\<rparr>, Pending)
      | Failed e n \<Rightarrow> (Some \<lparr>stdin_lines = all_sent rc lines region, terminated = False\<rparr>, Raised e)
      | Exited how st n \<Rightarrow>
          (Some \<lparr>stdin_lines = all_sent rc lines region, terminated = True\<rparr>, Returned (outcome st)))"
  using assms
  by (simp add: run_parser_def stdin_send_def all_sent_def nothing_yet_def split: loop_result.split)

lemma run_parser_returned:
  assumes "run_parser w rc region = (p, Returned out)"
  shows "(p = None \<and> (\<exists>msg. out = error_outcome msg))
       \<or> (p \<noteq> None \<and> (\<exists>how st n. collect_loop (clock_start w + 10) (ticks w) nothing_yet 0 = Exited how st n
                \<and> out = outcome st))"
  using assms
  by (auto simp: run_parser_def stdin_send_def nothing_yet_def Let_def
           split: if_splits sum.splits option.splits loop_result.splits)

lemma nothing_yet_not_satisfied: "\<not> satisfied nothing_yet"
  by (simp add: satisfied_def nothing_yet_def)

lemma outcome_satisfied:
  "satisfied st \<Longrightarrow> outcome st = JObj [(''fights'', fights_data st), (''master'', master_data st)]"
  by (simp add: outcome_def satisfied_def)



section \<open>Lemmas about the two framings\<close>





lemma read_line_total: "\<exists>q'. read_line loads line q = Inr q'"
  by (simp add: read_line_def except_pass_def split: option.split sum.split)

lemma read_thread_total: "\<exists>q'. read_thread loads lines q = Inr q'"
proof (induction lines arbitrary: q)
  case Nil
  then show ?case by simp
next
  case (Cons line lines)
  obtain q' where "read_line loads line q = Inr q'" using read_line_total by blast
  with Cons.IH [of q'] show ?case by simp
qed

section \<open>What the exits of a run say about its trace\<close>

text \<open>
  The loop cannot poll past the deadline: once the trace holds a clock reading that is not
  before the deadline, the loop has ended, by \<^verbatim>\<open>break\<close>, by its condition or by an exception.
\<close>

lemma collect_loop_decided:
  "\<exists>tp \<in> set ts. \<not> fst tp < T \<Longrightarrow> collect_loop T ts st n \<noteq> Polling"
proof (induction ts arbitrary: st n)
  case Nil
  then show ?case by simp
next
  case (Cons tp ts)
  obtain t p where tp: "tp = (t, p)" by (cases tp)
  show ?case
  proof (cases "t < T")
    case False
    then show ?thesis by (simp add: tp)
  next
    case True
    with Cons.prems have "\<exists>tp \<in> set ts. \<not> fst tp < T" by (auto simp: tp)
    from Cons.IH [OF this] True show ?thesis
      by (simp add: tp split: option.split sum.split)
  qed
qed

text \<open>A message that is not a \<^verbatim>\<open>dict\<close> ends the loop, and \<^verbatim>\<open>run_parser\<close>, with an exception.\<close>

lemma collect_loop_not_dict:
  "t < T \<Longrightarrow> \<not> is_dict m \<Longrightarrow> collect_loop T ((t, Some m) # rest) st n = Failed AttributeError n"
  by (simp add: handle_msg_not_dict)

text \<open>
  Every exit through the loop condition comes from a trace of the shape the statement about
  the deadline below assumes: passes before the deadline, on \<^verbatim>\<open>dict\<close> messages only, at none
  of which both payloads were truthy, followed by a clock reading at or past the deadline.
\<close>

lemma deadline_exit_trace:
  assumes "collect_loop T ts st n = Exited Deadline st' n'" and "\<not> satisfied st"
  shows "\<exists>pre t p rest. ts = pre @ (t, p) # rest \<and> length pre = n' - n
           \<and> (\<forall>tp \<in> set pre. fst tp < T) \<and> T \<le> t
           \<and> (\<forall>m \<in> set (events pre). is_dict m)
           \<and> (\<forall>k \<le> length pre. \<not> satisfied (recorded st (events (take k pre))))"
  using assms
proof (induction ts arbitrary: st n)
  case Nil
  then show ?case by simp
next
  case (Cons tp ts)
  obtain t p where tp: "tp = (t, p)" by (cases tp)
  show ?case
  proof (cases "t < T")
    case False
    with Cons.prems have "n' = n" by (simp add: tp)
    with False Cons.prems(2) have "tp # ts = [] @ (t, p) # ts \<and> length ([] :: tick list) = n' - n
           \<and> (\<forall>tp \<in> set ([] :: tick list). fst tp < T) \<and> T \<le> t
           \<and> (\<forall>m \<in> set (events []). is_dict m)
           \<and> (\<forall>k \<le> length ([] :: tick list). \<not> satisfied (recorded st (events (take k []))))"
      by (simp add: tp)
    then show ?thesis by blast
  next
    case True
    have step: "\<exists>st1. collect_loop T ts st1 (Suc n) = Exited Deadline st' n' \<and> \<not> satisfied st1
                  \<and> (\<forall>ms. recorded st (events [tp] @ ms) = recorded st1 ms)
                  \<and> (\<forall>m \<in> set (events [tp]). is_dict m)"
    proof (cases p)
      case None
      with Cons.prems True show ?thesis by (auto simp: tp)
    next
      case (Some m)
      show ?thesis
      proof (cases "is_dict m")
        case False
        with Cons.prems True show ?thesis by (simp add: tp Some handle_msg_not_dict)
      next
        case d: True
        from Cons.prems(1) have "\<not> satisfied (recorded st [m])"
          and "collect_loop T ts (recorded st [m]) (Suc n) = Exited Deadline st' n'"
          unfolding tp Some collect_loop_event [OF True d] by (auto split: if_splits)
        moreover have "\<forall>ms. recorded st (events [tp] @ ms) = recorded (recorded st [m]) ms"
          unfolding tp Some events_simps append_Cons append_Nil using recorded_Cons by blast
        moreover have "\<forall>m \<in> set (events [tp]). is_dict m"
          using d by (simp add: tp Some)
        ultimately show ?thesis by blast
      qed
    qed
    then obtain st1 where loop: "collect_loop T ts st1 (Suc n) = Exited Deadline st' n'"
      and st1: "\<not> satisfied st1"
      and rec: "\<And>ms. recorded st (events [tp] @ ms) = recorded st1 ms"
      and dict: "\<forall>m \<in> set (events [tp]). is_dict m" by blast
    from Cons.IH [OF loop st1] obtain pre t' p' rest where
      ts: "ts = pre @ (t', p') # rest" and len: "length pre = n' - Suc n"
      and before: "\<forall>tp \<in> set pre. fst tp < T" and at: "T \<le> t'"
      and dicts: "\<forall>m \<in> set (events pre). is_dict m"
      and never: "\<forall>k \<le> length pre. \<not> satisfied (recorded st1 (events (take k pre)))"
      by blast
    from collect_loop_exited [OF loop] have "Suc n \<le> n'" by simp
    with len have len': "length (tp # pre) = n' - n" by simp
    have ev: "events (tp # xs) = events [tp] @ events xs" for xs
      by (cases p) (simp_all add: tp)
    have never': "\<forall>k \<le> length (tp # pre). \<not> satisfied (recorded st (events (take k (tp # pre))))"
    proof (intro allI impI)
      fix k assume k: "k \<le> length (tp # pre)"
      show "\<not> satisfied (recorded st (events (take k (tp # pre))))"
      proof (cases k)
        case 0
        with Cons.prems(2) show ?thesis by simp
      next
        case (Suc j)
        with k never have "\<not> satisfied (recorded st1 (events (take j pre)))" by simp
        then show ?thesis by (simp add: Suc ev [of "take j pre"] rec)
      qed
    qed
    have "tp # ts = (tp # pre) @ (t', p') # rest" by (simp add: ts)
    moreover have "\<forall>tp' \<in> set (tp # pre). fst tp' < T" using before True by (simp add: tp)
    moreover have "\<forall>m \<in> set (events (tp # pre)). is_dict m"
      using dicts dict by (auto simp add: ev [of pre])
    ultimately show ?thesis using len' at never' by blast
  qed
qed

text \<open>
  Whenever \<^verbatim>\<open>run_parser\<close> returns an Outcome after the worker was spawned, the worker has been
  terminated and the four commands were written in their order.
\<close>

lemma returned_after_spawn:
  assumes "run_parser w rc region = (Some p, Returned out)"
  shows "terminated p \<and> (\<exists>lines. log_read w = Inr lines \<and> stdin_lines p = all_sent rc lines region)"
  using assms
  by (auto simp: run_parser_def stdin_send_def all_sent_def Let_def
           split: if_splits sum.splits option.splits loop_result.splits)

section \<open>The claims\<close>

text \<open>
  Claim C1, as the code has it. Take a run in which the worker starts and the four writes
  succeed, and a prefix \<open>pre\<close> of the loop's passes that all read the clock before the
  deadline and take only \<^verbatim>\<open>dict\<close> messages from the queue. If \<open>pre\<close> is the shortest prefix
  after which the payloads most recently received on \<^verbatim>\<open>ipc-collect-fights\<close> and on
  \<^verbatim>\<open>ipc-collect-master-info\<close> are both truthy, then the loop leaves by \<^verbatim>\<open>break\<close> at the end
  of \<open>pre\<close>, without another look at the clock or the queue, the worker is terminated, and
  \<^verbatim>\<open>run_parser\<close> returns the success mapping that holds exactly these two payloads. An event
  whose payload is falsy (an empty mapping, \<^verbatim>\<open>null\<close>, a missing \<^verbatim>\<open>data\<close> key) does not count.
\<close>

theorem early_success:
  assumes "download_ok w" and "script_exists w" and "log_read w = Inr lines" and "popen w = None"
    and "broken_pipe_at w \<notin> {Some 0, Some 1, Some 2, Some 3}"
    and "ticks w = pre @ rest"
    and "\<forall>tp \<in> set pre. fst tp < clock_start w + 10"
    and "\<forall>m \<in> set (events pre). is_dict m"
    and "\<forall>k < length pre. \<not> satisfied (recorded nothing_yet (events (take k pre)))"
    and "satisfied (recorded nothing_yet (events pre))"
  shows "collect_loop (clock_start w + 10) (ticks w) nothing_yet 0
           = Exited Break (recorded nothing_yet (events pre)) (length pre)
         \<and> run_parser w rc region =
             (Some \<lparr>stdin_lines = all_sent rc lines region, terminated = True\<rparr>,
              Returned (JObj [(''fights'', latest ''ipc-collect-fights'' JNull (events pre)),
                              (''master'', latest ''ipc-collect-master-info'' JNull (events pre))]))"
proof -
  from assms(10) nothing_yet_not_satisfied have ne: "pre \<noteq> []"
    by (cases pre) auto
  have loop: "collect_loop (clock_start w + 10) (ticks w) nothing_yet 0
           = Exited Break (recorded nothing_yet (events pre)) (length pre)"
    using collect_loop_prefix [OF assms(7,8,9), of rest 0] ne assms(10) by (simp add: assms(6))
  have "outcome (recorded nothing_yet (events pre)) =
          JObj [(''fights'', latest ''ipc-collect-fights'' JNull (events pre)),
                (''master'', latest ''ipc-collect-master-info'' JNull (events pre))]"
    using outcome_satisfied [OF assms(10)] by (simp add: recorded_def nothing_yet_def)
  with loop show ?thesis
    by (simp add: run_parser_collects [OF assms(1-5)])
qed

text \<open>
  A run of this kind: the fights arrive on the first pass, the second pass finds the queue
  empty, the master information arrives on the third; the deadline is never looked at again.
\<close>

theorem early_success_witness:
  "run_parser
     (quiet_world\<lparr>ticks := [(1, Some (fights_event (JObj [(''fights'', JArr [JInt 1])]))),
                            (2, None),
                            (3, Some (master_event (JObj [(''reportCode'', JStr ''a1B2c3D4'')]))),
                            (11, None)]\<rparr>) ''a1B2c3D4'' 1
   = (Some \<lparr>stdin_lines = all_sent ''a1B2c3D4'' [''21|2024|'' @ [CHR 0x0A]] 1, terminated = True\<rparr>,
      Returned (JObj [(''fights'', JObj [(''fights'', JArr [JInt 1])]),
                      (''master'', JObj [(''reportCode'', JStr ''a1B2c3D4'')])]))"
proof -
  let ?pre = "[(1, Some (fights_event (JObj [(''fights'', JArr [JInt 1])]))),
               (2, None),
               (3, Some (master_event (JObj [(''reportCode'', JStr ''a1B2c3D4'')])))] :: tick list"
  let ?w = "quiet_world\<lparr>ticks := ?pre @ [(11, None)]\<rparr>"
  have 1: "download_ok ?w" and 2: "script_exists ?w"
    and 3: "log_read ?w = Inr [''21|2024|'' @ [CHR 0x0A]]" and 4: "popen ?w = None"
    and 5: "broken_pipe_at ?w \<notin> {Some 0, Some 1, Some 2, Some 3}"
    and 6: "ticks ?w = ?pre @ [(11, None)]"
    and 7: "\<forall>tp \<in> set ?pre. fst tp < clock_start ?w + 10"
    by (simp_all add: quiet_world_def)
  have 8: "\<forall>m \<in> set (events ?pre). is_dict m"
    by (simp add: fights_event_def master_event_def)
  have 9: "\<forall>k < length ?pre. \<not> satisfied (recorded nothing_yet (events (take k ?pre)))"
    by (simp add: All_less_Suc satisfied_def recorded_def nothing_yet_def latest_Cons)
  have 10: "satisfied (recorded nothing_yet (events ?pre))"
    by (simp add: satisfied_def recorded_def nothing_yet_def latest_Cons
          fights_event_def master_event_def event_channel_def event_data_def)
  from early_success [OF 1 2 3 4 5 6 7 8 9 10, of "''a1B2c3D4''" 1] show ?thesis
    by (simp add: latest_Cons fights_event_def master_event_def event_channel_def event_data_def)
qed

text \<open>
  Claim C1 as it is written fails: events for both channels are received before the
  deadline, the first one with an empty mapping as its payload, and the loop runs to the
  deadline and \<^verbatim>\<open>run_parser\<close> returns the failure mapping.
\<close>

theorem early_success_counterexample:
  "run_parser (quiet_world\<lparr>ticks := [(1, Some (fights_event (JObj []))),
                                      (2, Some (master_event (JObj [(''reportCode'', JStr ''a1B2c3D4'')]))),
                                      (11, None)]\<rparr>) ''a1B2c3D4'' 1
     = (Some \<lparr>stdin_lines = all_sent ''a1B2c3D4'' [''21|2024|'' @ [CHR 0x0A]] 1, terminated = True\<rparr>,
        Returned (JObj [(''error'', JStr ''Parser did not return complete data''),
                        (''fights'', JObj []),
                        (''master'', JObj [(''reportCode'', JStr ''a1B2c3D4'')])]))"
  by (simp add: run_parser_def quiet_world_def stdin_send_def all_sent_def fights_event_def
        master_event_def handle_msg_def outcome_def)






text \<open>
  Claim C4. For every line, every queue and every behaviour of \<^verbatim>\<open>json.loads\<close>, the body of the
  drain loop ends without an exception, and so does the whole loop over any stream. A line
  without the sentinel leaves the queue as it is; so does a line with the sentinel on whose
  remainder \<^verbatim>\<open>json.loads\<close> raises; and after either line the loop goes on with the rest of
  the stream.
\<close>

theorem drain_never_raises:
  "(\<exists>q'. read_line loads line q = Inr q')
   \<and> (\<exists>q'. read_thread loads lines q = Inr q')
   \<and> (\<not> startswith line ''__IPC__:'' \<longrightarrow> read_line loads line q = Inr q)
   \<and> (startswith line ''__IPC__:'' \<and> loads (strip (drop 8 line)) = Inl e
        \<longrightarrow> read_line loads line q = Inr q)
   \<and> (line \<noteq> [] \<and> (\<not> startswith line ''__IPC__:'' \<or> loads (strip (drop 8 line)) = Inl e)
        \<longrightarrow> read_thread loads (line # lines) q = read_thread loads lines q)"
  using read_line_total [of loads line q] read_thread_total [of loads lines q]
  by (auto simp: read_line_def ipc_payload_def except_pass_def)

text \<open>
  A stream of three lines: a log line of the worker, a sentinel line whose remainder is not
  JSON, and a sentinel line with an empty object. Only the last one reaches the queue.
\<close>

theorem drain_never_raises_witness:
  "read_thread (\<lambda>s. if s = ''{}'' then Inr (JObj []) else Inl JSONDecodeError)
     [''starting parser'' @ [CHR 0x0A], ''__IPC__:{oops'' @ [CHR 0x0A], ''__IPC__:{}'' @ [CHR 0x0A]] []
   = Inr [JObj []]"
proof -
  let ?loads = "\<lambda>s. if s = ''{}'' then Inr (JObj []) else Inl JSONDecodeError"
  let ?noise = "''starting parser'' @ [CHR 0x0A]"
  let ?bad = "''__IPC__:{oops'' @ [CHR 0x0A]"
  let ?good = "''__IPC__:{}'' @ [CHR 0x0A]"
  have a: "\<not> startswith ?noise ''__IPC__:''"
    by (simp add: startswith_def)
  have b: "startswith ?bad ''__IPC__:'' \<and> ?loads (strip (drop 8 ?bad)) = Inl JSONDecodeError"
    by (simp add: startswith_def strip_def py_isspace_def)
  have 1: "read_thread ?loads [?noise, ?bad, ?good] [] = read_thread ?loads [?bad, ?good] []"
    using a drain_never_raises [of ?loads ?noise "[]" "[?bad, ?good]" JSONDecodeError]
    by simp
  have 2: "read_thread ?loads [?bad, ?good] [] = read_thread ?loads [?good] []"
    using b drain_never_raises [of ?loads ?bad "[]" "[?good]" JSONDecodeError]
    by simp
  have 3: "read_thread ?loads [?good] [] = Inr [JObj []]"
    by (simp add: read_line_def ipc_payload_def startswith_def strip_def py_isspace_def except_pass_def)
  from 1 2 3 show ?thesis by simp
qed

text \<open>
  Claim C5, as the code has it. When the loop ends after \<open>n\<close> passes, the payload it holds
  for each of the two channels is the payload of the last event on that channel among the
  events of these passes, and \<^verbatim>\<open>None\<close> when there was none: a later event on the same
  channel replaces the payload, while an empty poll or an event on another channel leaves
  it as it is.
\<close>

theorem last_event_wins:
  assumes "collect_loop T ts nothing_yet 0 = Exited how st n"
  shows "n \<le> length ts
       \<and> fights_data st = latest ''ipc-collect-fights'' JNull (events (take n ts))
       \<and> master_data st = latest ''ipc-collect-master-info'' JNull (events (take n ts))"
  using collect_loop_exited [OF assms] by (simp add: recorded_def nothing_yet_def)

text \<open>
  Three events before the deadline: two on the fights channel, and one on another channel
  between them. The loop ends at the deadline with the payload of the second fights event.
\<close>

theorem last_event_wins_witness:
  "collect_loop 10
     [(1, Some (fights_event (JObj [(''fights'', JArr [JInt 1])]))),
      (2, Some (JObj [(''channel'', JStr ''ipc-progress''), (''data'', JInt 50)])),
      (3, Some (fights_event (JObj [(''fights'', JArr [JInt 2])]))),
      (11, None)] nothing_yet 0
     = Exited Deadline \<lparr>fights_data = JObj [(''fights'', JArr [JInt 2])], master_data = JNull\<rparr> 3
   \<and> latest ''ipc-collect-fights'' JNull
        [fights_event (JObj [(''fights'', JArr [JInt 1])]),
         JObj [(''channel'', JStr ''ipc-progress''), (''data'', JInt 50)],
         fights_event (JObj [(''fights'', JArr [JInt 2])])]
     = JObj [(''fights'', JArr [JInt 2])]"
proof -
  let ?ts = "[(1, Some (fights_event (JObj [(''fights'', JArr [JInt 1])]))),
      (2, Some (JObj [(''channel'', JStr ''ipc-progress''), (''data'', JInt 50)])),
      (3, Some (fights_event (JObj [(''fights'', JArr [JInt 2])]))),
      (11, None)] :: tick list"
  have run: "collect_loop 10 ?ts nothing_yet 0
     = Exited Deadline \<lparr>fights_data = JObj [(''fights'', JArr [JInt 2])], master_data = JNull\<rparr> 3"
    by (simp add: fights_event_def nothing_yet_def handle_msg_def)
  from last_event_wins [OF run] run show ?thesis
    by (simp add: numeral_3_eq_3)
qed

text \<open>
  Claim C5 as it is written fails. After one fights event the loop holds its payload; when a
  second fights event follows before the loop ends, the loop holds the payload of the
  second one: the first was overwritten.
\<close>

theorem last_event_wins_counterexample:
  "collect_loop 10 [(1, Some (fights_event (JObj [(''fights'', JArr [JInt 1])]))), (11, None)] nothing_yet 0
     = Exited Deadline \<lparr>fights_data = JObj [(''fights'', JArr [JInt 1])], master_data = JNull\<rparr> 1
   \<and> collect_loop 10 [(1, Some (fights_event (JObj [(''fights'', JArr [JInt 1])]))),
                       (2, Some (fights_event (JObj [(''fights'', JArr [JInt 2])]))), (11, None)] nothing_yet 0
     = Exited Deadline \<lparr>fights_data = JObj [(''fights'', JArr [JInt 2])], master_data = JNull\<rparr> 2"
  by (simp add: fights_event_def nothing_yet_def handle_msg_def)

text \<open>
  Claim C6 does not hold of the code. The first write to the worker's stdin fails: the
  exception leaves \<^verbatim>\<open>run_parser\<close> while the worker, spawned a moment before, has not been
  terminated, and no Outcome is returned.
\<close>

theorem failed_write_skips_terminate:
  "run_parser (quiet_world\<lparr>broken_pipe_at := Some 0\<rparr>) ''a1B2c3D4'' 1
     = (Some \<lparr>stdin_lines = [], terminated = False\<rparr>, Raised BrokenPipeError)"
  by (simp add: run_parser_def quiet_world_def stdin_send_def)

text \<open>
  Claim C7 does not hold of the code. The worker has answered the first two commands with a
  fights event and then exits, so the third write fails: \<^verbatim>\<open>run_parser\<close> sends no further
  command, but it raises instead of returning an Outcome built from the event in the queue.
\<close>

theorem failed_write_propagates:
  "run_parser (quiet_world\<lparr>broken_pipe_at := Some 2,
                 ticks := [(1, Some (fights_event (JObj [(''fights'', JArr [JInt 1])]))), (11, None)]\<rparr>)
       ''a1B2c3D4'' 1
     = (Some \<lparr>stdin_lines = [encode (set_report_code ''a1B2c3D4''),
                              encode (parse_lines [''21|2024|'' @ [CHR 0x0A]] 1)],
              terminated = False\<rparr>,
        Raised BrokenPipeError)"
  by (simp add: run_parser_def quiet_world_def stdin_send_def)

text \<open>
  Claim C8, as the code has it. When the parser bundle cannot be obtained, is not on disk,
  or Node.js cannot be spawned, \<^verbatim>\<open>run_parser\<close> returns (it does not raise) a mapping that
  holds an error descriptor and nothing else, so no payload; no worker process exists, and
  therefore no command has been written to one.
\<close>

theorem launch_failure_is_returned:
  assumes "\<not> download_ok w \<or> \<not> script_exists w \<or> popen w \<noteq> None"
  shows "\<exists>msg. run_parser w rc region = (None, Returned (JObj [(''error'', JStr msg)]))"
  using assms by (auto simp: run_parser_def error_outcome_def split: sum.split option.split)

text \<open>The run in which Node.js is not installed.\<close>

theorem launch_failure_is_returned_witness:
  "run_parser (quiet_world\<lparr>popen := Some ''[Errno 2] No such file or directory''\<rparr>) ''a1B2c3D4'' 1
     = (None, Returned (JObj [(''error'',
          JStr ''Failed to start Node.js: [Errno 2] No such file or directory'')]))"
proof -
  let ?w = "quiet_world\<lparr>popen := Some ''[Errno 2] No such file or directory''\<rparr>"
  have "\<not> download_ok ?w \<or> \<not> script_exists ?w \<or> popen ?w \<noteq> None"
    by simp
  from launch_failure_is_returned [OF this, of "''a1B2c3D4''" 1]
  obtain msg where "run_parser ?w ''a1B2c3D4'' 1 = (None, Returned (JObj [(''error'', JStr msg)]))"
    by blast
  moreover have "snd (run_parser ?w ''a1B2c3D4'' 1)
      = Returned (JObj [(''error'', JStr ''Failed to start Node.js: [Errno 2] No such file or directory'')])"
    by (simp add: run_parser_def quiet_world_def error_outcome_def)
  ultimately show ?thesis by simp
qed

text \<open>
  Claim C8 as it is written fails: with the parser bundle missing from the disk, nothing is
  raised; \<^verbatim>\<open>run_parser\<close> returns an Outcome, the mapping with the error descriptor.
\<close>

theorem launch_failure_counterexample:
  "run_parser (quiet_world\<lparr>script_exists := False\<rparr>) ''a1B2c3D4'' 1
     = (None, Returned (JObj [(''error'', JStr ''Parser script not found'')]))"
  by (simp add: run_parser_def quiet_world_def error_outcome_def)

text \<open>
  Claim C9. Whenever \<^verbatim>\<open>run_parser\<close> returns an Outcome, the Outcome is a success (both payload
  keys, no error descriptor) exactly when the payloads under \<^verbatim>\<open>fights\<close> and \<^verbatim>\<open>master\<close> are both
  truthy, and it holds an error descriptor exactly when it is not a success. When a worker
  was started, these payloads are the ones the loop held when it ended: an empty payload
  makes the Outcome a failure, however many events the two channels sent.
\<close>

theorem success_needs_truthy_payloads:
  assumes "run_parser w rc region = (p, Returned out)"
  shows "is_success out = (truthy (payload_of out ''fights'') \<and> truthy (payload_of out ''master''))
       \<and> (outcome_get out ''error'' \<noteq> None) = (\<not> is_success out)
       \<and> (p \<noteq> None \<longrightarrow>
            (\<exists>how st n. collect_loop (clock_start w + 10) (ticks w) nothing_yet 0 = Exited how st n
                \<and> payload_of out ''fights'' = fights_data st
                \<and> payload_of out ''master'' = master_data st))"
proof -
  have fail: "is_success (error_outcome msg) = (truthy (payload_of (error_outcome msg) ''fights'')
                  \<and> truthy (payload_of (error_outcome msg) ''master''))
       \<and> (outcome_get (error_outcome msg) ''error'' \<noteq> None) = (\<not> is_success (error_outcome msg))" for msg
    by (simp add: error_outcome_def is_success_def payload_of_def outcome_get_def)
  have loop: "is_success (outcome st) = (truthy (payload_of (outcome st) ''fights'')
                  \<and> truthy (payload_of (outcome st) ''master''))
       \<and> (outcome_get (outcome st) ''error'' \<noteq> None) = (\<not> is_success (outcome st))
       \<and> payload_of (outcome st) ''fights'' = fights_data st
       \<and> payload_of (outcome st) ''master'' = master_data st" for st
    by (cases "truthy (fights_data st)"; cases "truthy (master_data st)")
       (simp_all add: outcome_def is_success_def payload_of_def outcome_get_def)
  from run_parser_returned [OF assms] show ?thesis
  proof
    assume "p = None \<and> (\<exists>msg. out = error_outcome msg)"
    with fail show ?thesis by auto
  next
    assume "p \<noteq> None \<and> (\<exists>how st n. collect_loop (clock_start w + 10) (ticks w) nothing_yet 0 = Exited how st n
                \<and> out = outcome st)"
    then obtain how st n where "p \<noteq> None"
      and "collect_loop (clock_start w + 10) (ticks w) nothing_yet 0 = Exited how st n"
      and "out = outcome st" by blast
    with loop [of st] show ?thesis by auto
  qed
qed

text \<open>
  Both channels send an event well before the deadline; the master information is an empty
  mapping. The Outcome is not a success and holds the error descriptor.
\<close>

theorem success_needs_truthy_payloads_witness:
  "run_parser (quiet_world\<lparr>ticks := [(1, Some (fights_event (JObj [(''fights'', JArr [JInt 1])]))),
                                      (2, Some (master_event (JObj []))),
                                      (11, None)]\<rparr>) ''a1B2c3D4'' 1
     = (Some \<lparr>stdin_lines = all_sent ''a1B2c3D4'' [''21|2024|'' @ [CHR 0x0A]] 1, terminated = True\<rparr>,
        Returned (JObj [(''error'', JStr ''Parser did not return complete data''),
                        (''fights'', JObj [(''fights'', JArr [JInt 1])]),
                        (''master'', JObj [])]))
   \<and> \<not> is_success (JObj [(''error'', JStr ''Parser did not return complete data''),
                        (''fights'', JObj [(''fights'', JArr [JInt 1])]),
                        (''master'', JObj [])])"
proof -
  let ?w = "quiet_world\<lparr>ticks := [(1, Some (fights_event (JObj [(''fights'', JArr [JInt 1])]))),
                                      (2, Some (master_event (JObj []))),
                                      (11, None)]\<rparr>"
  let ?out = "JObj [(''error'', JStr ''Parser did not return complete data''),
                        (''fights'', JObj [(''fights'', JArr [JInt 1])]),
                        (''master'', JObj [])]"
  have run: "run_parser ?w ''a1B2c3D4'' 1
     = (Some \<lparr>stdin_lines = all_sent ''a1B2c3D4'' [''21|2024|'' @ [CHR 0x0A]] 1, terminated = True\<rparr>,
        Returned ?out)"
    by (simp add: run_parser_def quiet_world_def stdin_send_def all_sent_def fights_event_def
        master_event_def handle_msg_def outcome_def)
  have "\<not> truthy (payload_of ?out ''master'')"
    by (simp add: payload_of_def outcome_get_def)
  with success_needs_truthy_payloads [OF run] have "\<not> is_success ?out" by simp
  with run show ?thesis by simp
qed



end
